theory Spec2Isabelle
  imports Main "HOL-Library.Product_Lexorder" "HOL-Library.Multiset"
begin

section \<open>Strings\<close>

text \<open>
  Python strings are modelled as \<open>string\<close>, one \<open>char\<close> per character (code points
  below 256). The helpers below are the string methods the finder code calls.
\<close>

definition ord :: "char \<Rightarrow> nat" where
  "ord c = of_char c"

definition is_digit :: "char \<Rightarrow> bool" where
  "is_digit c = (48 \<le> ord c \<and> ord c \<le> 57)"

definition is_upper :: "char \<Rightarrow> bool" where
  "is_upper c = (65 \<le> ord c \<and> ord c \<le> 90)"

definition is_lower :: "char \<Rightarrow> bool" where
  "is_lower c = (97 \<le> ord c \<and> ord c \<le> 122)"

definition lower_char :: "char \<Rightarrow> char" where
  "lower_char c = (if is_upper c then char_of (ord c + 32) else c)"

text \<open>\<open>s.lower()\<close>\<close>

definition lower :: "string \<Rightarrow> string" where
  "lower s = map lower_char s"

text \<open>\<open>s.replace(a, b)\<close> for single characters \<open>a\<close> and \<open>b\<close>\<close>

definition replace_char :: "char \<Rightarrow> char \<Rightarrow> string \<Rightarrow> string" where
  "replace_char a b s = map (\<lambda>c. if c = a then b else c) s"

text \<open>\<open>s.startswith(p)\<close> and \<open>s.endswith(p)\<close>\<close>

definition startswith :: "string \<Rightarrow> string \<Rightarrow> bool" where
  "startswith s p = (take (length p) s = p)"

definition endswith :: "string \<Rightarrow> string \<Rightarrow> bool" where
  "endswith s p = (length p \<le> length s \<and> drop (length s - length p) s = p)"

text \<open>\<open>sub in s\<close> on strings\<close>

fun substring_in :: "string \<Rightarrow> string \<Rightarrow> bool" where
  "substring_in sub [] = (sub = [])"
| "substring_in sub (c # cs) = (startswith (c # cs) sub \<or> substring_in sub cs)"

text \<open>\<open>'%x' % n\<close>: lowercase hexadecimal without leading zeros\<close>

definition hex_digit :: "nat \<Rightarrow> char" where
  "hex_digit d = ''0123456789abcdef'' ! d"

fun hex_of :: "nat \<Rightarrow> string" where
  "hex_of n = (if n < 16 then [hex_digit n] else hex_of (n div 16) @ [hex_digit (n mod 16)])"

declare hex_of.simps [simp del]

text \<open>A field width in a \<open>%\<close> format pads on the left with spaces: \<open>'%2x' % 9 == ' 9'\<close>.\<close>

definition rjust :: "nat \<Rightarrow> string \<Rightarrow> string" where
  "rjust w s = replicate (w - length s) (CHR '' '') @ s"

section \<open>\<open>HTMLPage.clean_link\<close> (index.py)\<close>

text \<open>
  \<open>_clean_re = re.compile(r'[^a-z0-9$&+,/:;=?@.#%_\\|-]', re.I)\<close>: the characters the
  expression matches are those outside the class; \<open>0x5C\<close> is the backslash.
\<close>

definition clean_re_matches :: "char \<Rightarrow> bool" where
  "clean_re_matches c =
     (\<not> (is_lower c \<or> is_upper c \<or> is_digit c
         \<or> c \<in> set ''$&+,/:;=?@.#%_|-'' \<or> c = CHR 0x5C))"

text \<open>
  \<open>_clean_re.sub(lambda match: '%%%2x' % ord(match.group(0)), url)\<close>: every matched
  character is replaced by a percent sign and the result of the format \<open>%2x\<close>.
\<close>

definition clean_link :: "string \<Rightarrow> string" where
  "clean_link url =
     concat (map (\<lambda>c. if clean_re_matches c then CHR ''%'' # rjust 2 (hex_of (ord c)) else [c])
       url)"

section \<open>Regular expressions of finder\_funcs.py\<close>

text \<open>
  \<open>_egg_info_re = re.compile(r'([a-z0-9_.]+)-([a-z0-9_.-]+)', re.I)\<close>.
  The first group cannot contain a dash, so a match that starts at a position takes the
  whole run of name characters there, wants a dash next, and then takes the longest
  non-empty run of version characters. \<open>search\<close> returns the leftmost match;
  the model returns \<open>match.group(0)\<close>.
\<close>

definition egg_name_char :: "char \<Rightarrow> bool" where
  "egg_name_char c = (is_lower c \<or> is_upper c \<or> is_digit c \<or> c = CHR ''_'' \<or> c = CHR ''.'')"

definition egg_version_char :: "char \<Rightarrow> bool" where
  "egg_version_char c = (egg_name_char c \<or> c = CHR ''-'')"

definition egg_info_re_match :: "string \<Rightarrow> string option" where
  "egg_info_re_match s =
     (let a = takeWhile egg_name_char s; r = dropWhile egg_name_char s in
      if a = [] then None
      else case r of
             [] \<Rightarrow> None
           | d # r' \<Rightarrow>
               if d = CHR ''-'' \<and> takeWhile egg_version_char r' \<noteq> []
               then Some (a @ d # takeWhile egg_version_char r')
               else None)"

fun egg_info_re_search :: "string \<Rightarrow> string option" where
  "egg_info_re_search [] = None"
| "egg_info_re_search (c # cs) =
     (case egg_info_re_match (c # cs) of
        Some m \<Rightarrow> Some m
      | None \<Rightarrow> egg_info_re_search cs)"

text \<open>
  \<open>_py_version_re = re.compile(r'-py([123]\.?[0-9]?)$')\<close>. \<open>$\<close> matches at the end of
  the string and just before a newline that ends the string. A match is a dash, \<open>py\<close>, one of
  the digits 1 to 3, an optional dot and an optional digit, up to that end; it holds exactly
  one dash, its first character, so at most one position matches.
  The model returns \<open>(match.start(), match.group(1))\<close>.
\<close>

definition py_tag :: "string \<Rightarrow> bool" where
  "py_tag t =
     (case t of
        [c] \<Rightarrow> c \<in> set ''123''
      | [c, d] \<Rightarrow> c \<in> set ''123'' \<and> (d = CHR ''.'' \<or> is_digit d)
      | [c, p, d] \<Rightarrow> c \<in> set ''123'' \<and> p = CHR ''.'' \<and> is_digit d
      | _ \<Rightarrow> False)"

definition py_version_at :: "string \<Rightarrow> nat \<Rightarrow> (nat \<times> string) option" where
  "py_version_at body k =
     (let n = length body in
      if k + 3 \<le> n \<and> take 3 (drop (n - (k + 3)) body) = ''-py'' \<and> py_tag (drop (n - k) body)
      then Some (n - (k + 3), drop (n - k) body)
      else None)"

definition py_version_re_search :: "string \<Rightarrow> (nat \<times> string) option" where
  "py_version_re_search s =
     (let body = (if s \<noteq> [] \<and> last s = CHR 0x0A then butlast s else s) in
      case py_version_at body 3 of
        Some m \<Rightarrow> Some m
      | None \<Rightarrow>
          (case py_version_at body 2 of
             Some m \<Rightarrow> Some m
           | None \<Rightarrow> py_version_at body 1))"

section \<open>Data model\<close>

text \<open>
  The classes \<open>Link\<close> (pip.link) and \<open>Wheel\<close> (pip.wheel) are used by the finder code
  through their attributes only. A link is the record of the attributes that are read:
  \<open>splitext\<close> is the result of \<open>link.splitext()\<close>, \<open>comes_from\<close> the URL of the page
  the link was found on, and the three tri-state flags are \<open>None\<close>, \<open>Some False\<close> or
  \<open>Some True\<close>.
\<close>

record link =
  url :: string
  egg_fragment :: "string option"
  splitext :: "string \<times> string"
  path :: string
  filename :: string
  comes_from :: "string option"
  trusted :: "bool option"
  internal :: "bool option"
  verifiable :: "bool option"
  deprecated_regex :: bool

text \<open>Modelled from the spec: \<open>link.ext\<close> of pip.link, the extension part of the
  (stem, extension) decomposition of the link.\<close>

definition ext :: "link \<Rightarrow> string" where
  "ext l = snd (splitext l)"

text \<open>Modelled from the spec: the constant \<open>wheel_ext\<close> of pip.wheel.\<close>

definition wheel_ext :: string where
  "wheel_ext = ''.whl''"

text \<open>Modelled from the spec: the sentinel \<open>INSTALLED_VERSION\<close> of pip.link, a link value
  that is not a URL and compares equal only to itself.\<close>

datatype candidate_link = INSTALLED_VERSION | Link link

text \<open>An \<open>HTMLPage\<close>, by what the finder reads of it: the links of its anchors
  (\<open>page.links\<close>) and its homepage and download links (\<open>page.rel_links()\<close>).\<close>

record page =
  page_url :: string
  links :: "link list"
  rel_links :: "link list"

type_synonym tag = "string \<times> string \<times> string"

record wheel_info =
  wheel_name :: string
  wheel_version :: string
  file_tags :: "tag list"

text \<open>
  What the finder code takes from its collaborators: the \<open>Wheel\<close> constructor (\<open>None\<close> is
  \<open>InvalidWheelFilename\<close>), the tag lists of pip.pep425tags, \<open>get_platform()\<close>,
  \<open>sys.version\<close>, \<open>pkg_resources.parse_version\<close> (into any linear order),
  \<open>is_prerelease\<close> and \<open>normalize_name\<close> of pip.utils, the network location of
  \<open>urlparse\<close>, the \<open>Link\<close> constructor (URL, \<open>comes_from\<close>, \<open>trusted\<close>), and
  \<open>HTMLPage.get_page\<close> through the session (\<open>None\<close> when no page is fetched).
\<close>

record 'v env =
  Wheel :: "string \<Rightarrow> wheel_info option"
  supported_tags :: "tag list"
  supported_tags_noarch :: "tag list"
  get_platform :: string
  sys_version :: string
  parse_version :: "string \<Rightarrow> 'v"
  is_prerelease :: "string \<Rightarrow> bool"
  normalize_name :: "string \<Rightarrow> string"
  netloc :: "string \<Rightarrow> string"
  mk_link :: "string \<Rightarrow> string option \<Rightarrow> bool option \<Rightarrow> link"
  get_page :: "link \<Rightarrow> page option"

text \<open>Modelled from the spec: \<open>Wheel.supported(tags)\<close> of pip.wheel, true iff at least one
  of the wheel's file tags appears in \<open>tags\<close>.\<close>

definition supported :: "tag list \<Rightarrow> wheel_info \<Rightarrow> bool" where
  "supported tags w = list_ex (\<lambda>t. t \<in> set tags) (file_tags w)"

fun index_of :: "'a list \<Rightarrow> 'a \<Rightarrow> nat" where
  "index_of [] x = 0"
| "index_of (y # ys) x = (if y = x then 0 else Suc (index_of ys x))"

text \<open>Modelled from the spec: \<open>Wheel.support_index_min(tags)\<close> of pip.wheel, the smallest
  index in \<open>tags\<close> of any of the wheel's file tags; \<open>None\<close> when there is none.\<close>

definition support_index_min :: "tag list \<Rightarrow> wheel_info \<Rightarrow> nat option" where
  "support_index_min tags w =
     (case map (index_of tags) (filter (\<lambda>t. t \<in> set tags) (file_tags w)) of
        [] \<Rightarrow> None
      | i # is \<Rightarrow> Some (fold min is i))"

datatype not_found = No_distributions_at_all | No_matching_version

datatype error =
    DistributionNotFound not_found
  | BestVersionAlreadyInstalled
  | InvalidWheelFilename
  | UnsupportedWheel
  | AttributeError
  | TypeError

section \<open>\<open>FoundVersion\<close> (found.py)\<close>

record FoundVersion =
  version :: string
  link :: candidate_link

definition parsed_version :: "'v env \<Rightarrow> FoundVersion \<Rightarrow> 'v" where
  "parsed_version env fv = parse_version env (version fv)"

definition currently_installed :: "FoundVersion \<Rightarrow> bool" where
  "currently_installed fv = (link fv = INSTALLED_VERSION)"

definition prerelease :: "'v env \<Rightarrow> FoundVersion \<Rightarrow> bool" where
  "prerelease env fv = is_prerelease env (version fv)"

text \<open>
  \<open>FoundVersion._sort_key\<close>. The key is the pair of the parsed version and the priority;
  Python compares tuples lexicographically, as the order on pairs does here.
  Negating the \<open>None\<close> that \<open>support_index_min\<close> returns for a wheel without a
  supported tag would be a \<open>TypeError\<close>.
\<close>

definition FoundVersion_sort_key :: "'v env \<Rightarrow> FoundVersion \<Rightarrow> error + ('v \<times> int)" where
  "FoundVersion_sort_key env self =
     (let support_num = length (supported_tags env) in
      case link self of
        INSTALLED_VERSION \<Rightarrow> Inr (parsed_version env self, 1)
      | Link l \<Rightarrow>
          if ext l = wheel_ext then
            (case Wheel env (filename l) of
               None \<Rightarrow> Inl InvalidWheelFilename
             | Some wheel \<Rightarrow>
                 if \<not> supported (supported_tags env) wheel then Inl UnsupportedWheel
                 else (case support_index_min (supported_tags env) wheel of
                         None \<Rightarrow> Inl TypeError
                       | Some i \<Rightarrow> Inr (parsed_version env self, - int i)))
          else Inr (parsed_version env self, - int support_num))"

text \<open>
  \<open>sorted(versions, key=cls._sort_key, reverse=True)\<close>. The built-in first computes the key
  of every element, in list order, so the first key that raises ends the call. It then sorts
  stably; with \<open>reverse=True\<close> the greatest key comes first and elements with equal keys still
  keep their input order. A stable sort has exactly one result, computed here by insertion.
\<close>

fun sort_keys :: "('a \<Rightarrow> error + 'k) \<Rightarrow> 'a list \<Rightarrow> error + ('k \<times> 'a) list" where
  "sort_keys key [] = Inr []"
| "sort_keys key (x # xs) =
     (case key x of
        Inl e \<Rightarrow> Inl e
      | Inr k \<Rightarrow> (case sort_keys key xs of Inl e \<Rightarrow> Inl e | Inr ks \<Rightarrow> Inr ((k, x) # ks)))"

fun insort_reverse :: "('k::linorder) \<times> 'a \<Rightarrow> ('k \<times> 'a) list \<Rightarrow> ('k \<times> 'a) list" where
  "insort_reverse x [] = [x]"
| "insort_reverse x (y # ys) =
     (if fst y \<le> fst x then x # y # ys else y # insort_reverse x ys)"

definition sorted_reverse :: "(('k::linorder) \<times> 'a) list \<Rightarrow> 'a list" where
  "sorted_reverse ks = map snd (foldr insort_reverse ks [])"

definition FoundVersion_sort ::
  "('v::linorder) env \<Rightarrow> FoundVersion list \<Rightarrow> error + FoundVersion list" where
  "FoundVersion_sort env versions =
     (case sort_keys (FoundVersion_sort_key env) versions of
        Inl e \<Rightarrow> Inl e
      | Inr ks \<Rightarrow> Inr (sorted_reverse ks))"

section \<open>\<open>PackageFinder\<close> state (index.py)\<close>

datatype session = Session

text \<open>
  The attributes of a \<open>PackageFinder\<close>. The sets hold normalized names; \<open>logged_links\<close>
  holds links, which compare and hash by URL, so it is kept as the set of their URLs.
\<close>

record finder =
  find_links :: "string list"
  index_urls :: "string list"
  dependency_links :: "string list"
  logged_links :: "string set"
  use_wheel :: bool
  allow_external :: "string set"
  allow_unverified :: "string set"
  allow_all_external :: bool
  need_warn_external :: bool
  need_warn_unverified :: bool
  allow_all_prereleases :: bool
  process_dependency_links :: bool
  finder_session :: session

datatype log_entry =
    Could_not_find_any_downloads
  | Could_not_find_a_version
  | External_files_ignored
  | Unverified_files_ignored
  | Potentially_insecure
  | Deprecated_parsing_method
  | Dependency_links_deprecated

text \<open>\<open>PackageFinder.__init__\<close>\<close>

definition PackageFinder_init ::
  "'v env \<Rightarrow> string list \<Rightarrow> string list \<Rightarrow> bool \<Rightarrow> string list \<Rightarrow> string list \<Rightarrow> bool \<Rightarrow> bool
     \<Rightarrow> bool \<Rightarrow> session option \<Rightarrow> error + finder" where
  "PackageFinder_init env find_links' index_urls' use_wheel' allow_external' allow_unverified'
       allow_all_external' allow_all_prereleases' process_dependency_links' session' =
     (case session' of
        None \<Rightarrow> Inl TypeError
      | Some sess \<Rightarrow>
          (let external = set (map (normalize_name env) allow_external');
               unverified = set (map (normalize_name env) allow_unverified')
           in Inr \<lparr> find_links = find_links',
                    index_urls = index_urls',
                    dependency_links = [],
                    logged_links = {},
                    use_wheel = use_wheel',
                    allow_external = external \<union> unverified,
                    allow_unverified = unverified,
                    allow_all_external = allow_all_external',
                    need_warn_external = False,
                    need_warn_unverified = False,
                    allow_all_prereleases = allow_all_prereleases',
                    process_dependency_links = process_dependency_links',
                    finder_session = sess \<rparr>))"

text \<open>\<open>PackageFinder.add_dependency_links\<close>\<close>

definition add_dependency_links :: "finder \<Rightarrow> string list \<Rightarrow> finder \<times> log_entry list" where
  "add_dependency_links self new_links =
     (if process_dependency_links self
      then (self\<lparr>dependency_links := dependency_links self @ new_links\<rparr>,
            [Dependency_links_deprecated])
      else (self, []))"

section \<open>The link filter (finder\_funcs.py)\<close>

text \<open>\<open>if link.egg_fragment\<close>: the fragment is present and not the empty string.\<close>

definition has_egg_fragment :: "link \<Rightarrow> bool" where
  "has_egg_fragment l = (case egg_fragment l of None \<Rightarrow> False | Some e \<Rightarrow> e \<noteq> [])"

text \<open>\<open>_sort_links\<close>: links compare by URL.\<close>

fun sort_links_loop ::
  "link list \<Rightarrow> string list \<Rightarrow> link list \<Rightarrow> link list \<Rightarrow> link list \<times> link list" where
  "sort_links_loop [] seen eggs no_eggs = (eggs, no_eggs)"
| "sort_links_loop (l # ls) seen eggs no_eggs =
     (if url l \<notin> set seen then
        (if has_egg_fragment l
         then sort_links_loop ls (url l # seen) (eggs @ [l]) no_eggs
         else sort_links_loop ls (url l # seen) eggs (no_eggs @ [l]))
      else sort_links_loop ls seen eggs no_eggs)"

definition sort_links :: "link list \<Rightarrow> link list" where
  "sort_links ls = (case sort_links_loop ls [] [] [] of (eggs, no_eggs) \<Rightarrow> no_eggs @ eggs)"

text \<open>\<open>_egg_info_matches\<close>\<close>

definition egg_info_matches :: "string \<Rightarrow> string \<Rightarrow> string option" where
  "egg_info_matches egg_info search_name =
     (case egg_info_re_search egg_info of
        None \<Rightarrow> None
      | Some m \<Rightarrow>
          (let name = replace_char (CHR ''_'') (CHR ''-'') (lower m);
               look_for = lower search_name @ ''-''
           in if startswith name look_for then Some (drop (length look_for) m) else None))"

text \<open>\<open>_known_extensions\<close>\<close>

definition known_extensions :: "bool \<Rightarrow> string list" where
  "known_extensions use_wheel' =
     (let extensions = [''.tar.gz'', ''.tar.bz2'', ''.tar'', ''.tgz'', ''.zip''] in
      if use_wheel' then extensions @ [wheel_ext] else extensions)"

text \<open>The recurring \<open>if link not in state.logged_links: ...; state.logged_links.add(link)\<close>\<close>

definition log_skipped :: "link \<Rightarrow> finder \<Rightarrow> finder" where
  "log_skipped l state =
     (if url l \<notin> logged_links state
      then state\<lparr>logged_links := insert (url l) (logged_links state)\<rparr>
      else state)"

text \<open>
  The wheel branch of \<open>_link_package_versions\<close> (\<open>if ext == wheel_ext\<close>): \<open>None\<close> is
  \<open>return []\<close>, \<open>Some v\<close> is \<open>version = wheel.version\<close>.
\<close>

definition wheel_link_version :: "'v env \<Rightarrow> link \<Rightarrow> string \<Rightarrow> string option" where
  "wheel_link_version env l search_name =
     (let platform = get_platform env in
      case Wheel env (filename l) of
        None \<Rightarrow> None
      | Some wheel \<Rightarrow>
          if lower (wheel_name wheel) \<noteq> lower search_name then None
          else if \<not> supported (supported_tags env) wheel then None
          else if (\<not> startswith platform ''win''
                   \<and> \<not> startswith platform ''macosx''
                   \<and> \<not> platform = ''cli'')
                  \<and> (case comes_from l of
                        None \<Rightarrow> False
                      | Some page_url' \<Rightarrow> endswith (netloc env page_url') ''pypi.python.org'')
                  \<and> \<not> supported (supported_tags_noarch env) wheel
          then None
          else Some (wheel_version wheel))"

text \<open>
  The first part of \<open>_link_package_versions\<close>, up to \<open>if not version\<close>: \<open>None\<close> is
  \<open>return []\<close>, otherwise the pair of \<open>egg_info\<close> and \<open>version\<close>.
\<close>

definition link_egg_info ::
  "'v env \<Rightarrow> link \<Rightarrow> string \<Rightarrow> finder \<Rightarrow> finder
     \<Rightarrow> (string \<times> string option) option \<times> finder" where
  "link_egg_info env l search_name config state =
     (if has_egg_fragment l then (Some (the (egg_fragment l), None), state)
      else
        (let (egg_info, ext') = splitext l in
         if ext' = [] then (None, log_skipped l state)
         else
           (let (egg_info, ext') =
                  (if endswith egg_info ''.tar''
                   then (take (length egg_info - 4) egg_info, ''.tar'' @ ext')
                   else (egg_info, ext'))
            in if ext' \<notin> set (known_extensions (use_wheel config))
               then (None, log_skipped l state)
               else if substring_in ''macosx10'' (path l) \<and> ext' = ''.zip''
               then (None, log_skipped l state)
               else if ext' = wheel_ext then
                 (case wheel_link_version env l search_name of
                    None \<Rightarrow> (None, state)
                  | Some v \<Rightarrow> (Some (egg_info, Some v), state))
               else (Some (egg_info, None), state))))"

text \<open>The conditions of the two hosting checks of \<open>_link_package_versions\<close>\<close>

definition externally_hosted :: "'v env \<Rightarrow> link \<Rightarrow> string \<Rightarrow> finder \<Rightarrow> bool" where
  "externally_hosted env l search_name config =
     (internal l \<noteq> None
      \<and> \<not> the (internal l)
      \<and> \<not> lower (normalize_name env search_name) \<in> allow_external config
      \<and> \<not> allow_all_external config)"

definition insecure_unverifiable :: "'v env \<Rightarrow> link \<Rightarrow> string \<Rightarrow> finder \<Rightarrow> bool" where
  "insecure_unverifiable env l search_name config =
     (verifiable l \<noteq> None
      \<and> \<not> the (verifiable l)
      \<and> \<not> lower (normalize_name env search_name) \<in> allow_unverified config)"

text \<open>
  \<open>_link_package_versions\<close> up to \<open>if version is None\<close>: the version string computed for
  the link (\<open>if not version\<close> holds for \<open>None\<close> and for the empty string), \<open>None\<close> when
  the function has returned the empty list by then.
\<close>

definition link_version ::
  "'v env \<Rightarrow> link \<Rightarrow> string \<Rightarrow> finder \<Rightarrow> finder \<Rightarrow> string option \<times> finder" where
  "link_version env l search_name config state =
     (case link_egg_info env l search_name config state of
        (None, state') \<Rightarrow> (None, state')
      | (Some (egg_info, version0), state') \<Rightarrow>
          ((if version0 = None \<or> version0 = Some []
            then egg_info_matches egg_info search_name
            else version0), state'))"

text \<open>\<open>_link_package_versions\<close>: the list it returns and the state it leaves.\<close>

definition link_package_versions ::
  "'v env \<Rightarrow> link \<Rightarrow> string \<Rightarrow> finder \<Rightarrow> finder \<Rightarrow> FoundVersion list \<times> finder" where
  "link_package_versions env l search_name config state =
     (case link_version env l search_name config state of
        (None, state') \<Rightarrow> ([], state')
      | (Some v, state') \<Rightarrow>
          if externally_hosted env l search_name config
          then ([], state'\<lparr>need_warn_external := True\<rparr>)
          else if insecure_unverifiable env l search_name config
          then ([], state'\<lparr>need_warn_unverified := True\<rparr>)
          else
            (case py_version_re_search v of
               Some (start, py_version) \<Rightarrow>
                 if py_version \<noteq> take 3 (sys_version env) then ([], state')
                 else ([\<lparr>version = take start v, link = Link l\<rparr>], state')
             | None \<Rightarrow> ([\<lparr>version = v, link = Link l\<rparr>], state')))"

text \<open>\<open>_package_versions\<close>, run to the end of its generator\<close>

fun package_versions_loop ::
  "'v env \<Rightarrow> string \<Rightarrow> finder \<Rightarrow> link list \<Rightarrow> finder \<Rightarrow> FoundVersion list \<times> finder" where
  "package_versions_loop env search_name config [] state = ([], state)"
| "package_versions_loop env search_name config (l # ls) state =
     (case link_package_versions env l search_name config state of
        (vs, state') \<Rightarrow>
          (case package_versions_loop env search_name config ls state' of
             (ws, state'') \<Rightarrow> (vs @ ws, state'')))"

definition package_versions ::
  "'v env \<Rightarrow> link list \<Rightarrow> string \<Rightarrow> finder \<Rightarrow> finder \<Rightarrow> FoundVersion list \<times> finder" where
  "package_versions env ls search_name config state =
     package_versions_loop env search_name config (sort_links ls) state"

section \<open>The finders (finder/installed.py, finder/findlinks.py)\<close>

text \<open>
  An \<open>InstallRequirement\<close>, by what the finder reads of it: \<open>satisfied_by\<close> holds the
  version of the installed distribution, and \<open>req_contains v\<close> is \<open>v in req.req\<close>, the
  test of a version string against the specifier.
\<close>

record req =
  name :: string
  url_name :: string
  satisfied_by :: "string option"
  req_contains :: "string \<Rightarrow> bool"
  prereleases :: bool

text \<open>\<open>InstalledFinder.found\<close>\<close>

definition InstalledFinder_found :: "req \<Rightarrow> FoundVersion list" where
  "InstalledFinder_found r =
     (case satisfied_by r of
        None \<Rightarrow> []
      | Some installed \<Rightarrow> [\<lparr>version = installed, link = INSTALLED_VERSION\<rparr>])"

text \<open>\<open>FindLinksFinder.found\<close>\<close>

definition FindLinksFinder_found ::
  "'v env \<Rightarrow> req \<Rightarrow> finder \<Rightarrow> finder \<Rightarrow> FoundVersion list \<times> finder" where
  "FindLinksFinder_found env r config state =
     package_versions env
       (map (\<lambda>u. mk_link env u (Some ''-f'') (Some True)) (find_links config))
       (lower (name r)) config state"

section \<open>\<open>PackageFinder._get_pages\<close> (index.py)\<close>

text \<open>The loop over \<open>page.rel_links()\<close>: the links appended to \<open>all_locations\<close> and the
  finder with its warning flags.\<close>

fun rel_links_loop :: "'v env \<Rightarrow> req \<Rightarrow> link list \<Rightarrow> finder \<Rightarrow> link list \<times> finder" where
  "rel_links_loop env r [] self = ([], self)"
| "rel_links_loop env r (l # ls) self =
     (let normalized = lower (normalize_name env (name r)) in
      if normalized \<notin> allow_external self \<and> \<not> allow_all_external self
      then rel_links_loop env r ls (self\<lparr>need_warn_external := True\<rparr>)
      else if trusted l \<noteq> None \<and> \<not> the (trusted l) \<and> normalized \<notin> allow_unverified self
      then rel_links_loop env r ls (self\<lparr>need_warn_unverified := True\<rparr>)
      else (case rel_links_loop env r ls self of (followed, self') \<Rightarrow> (l # followed, self')))"

text \<open>
  The \<open>while all_locations\<close> loop follows links from page to page and need not end, so the
  model counts its iterations down from \<open>fuel\<close>; \<open>None\<close> is a loop still running when
  the fuel is spent. The result is the list of the pages yielded and the finder.
\<close>

fun get_pages ::
  "nat \<Rightarrow> 'v env \<Rightarrow> req \<Rightarrow> link list \<Rightarrow> string list \<Rightarrow> finder \<Rightarrow> (page list \<times> finder) option" where
  "get_pages fuel env r [] seen self = Some ([], self)"
| "get_pages 0 env r (location # all_locations) seen self = None"
| "get_pages (Suc fuel) env r (location # all_locations) seen self =
     (if url location \<in> set seen then get_pages fuel env r all_locations seen self
      else
        (case get_page env location of
           None \<Rightarrow> get_pages fuel env r all_locations (url location # seen) self
         | Some page \<Rightarrow>
             (case rel_links_loop env r (rel_links page) self of
                (followed, self') \<Rightarrow>
                  (case get_pages fuel env r (all_locations @ followed) (url location # seen) self' of
                     None \<Rightarrow> None
                   | Some (pages, self'') \<Rightarrow> Some (page # pages, self'')))))"

section \<open>\<open>PackageFinder.find_requirement\<close> (index.py)\<close>

text \<open>The four pools \<open>find_requirement\<close> collects before it looks at the installed version.\<close>

record pools =
  found_versions :: "FoundVersion list"
  page_versions :: "FoundVersion list"
  dependency_versions :: "FoundVersion list"
  file_versions :: "FoundVersion list"

text \<open>The loop \<open>for page in self._get_pages(locations, req)\<close> that extends
  \<open>page_versions\<close>; the finder is both \<open>config\<close> and \<open>state\<close> of the filter.\<close>

fun page_versions_loop ::
  "'v env \<Rightarrow> req \<Rightarrow> page list \<Rightarrow> finder \<Rightarrow> FoundVersion list \<times> finder" where
  "page_versions_loop env r [] self = ([], self)"
| "page_versions_loop env r (page # pages) self =
     (case package_versions env (links page) (lower (name r)) self self of
        (vs, self') \<Rightarrow>
          (case page_versions_loop env r pages self' of
             (ws, self'') \<Rightarrow> (vs @ ws, self'')))"

text \<open>
  The part of \<open>find_requirement\<close> that fills the pools. The lists \<open>locations\<close> (the links
  to the pages to search) and \<open>file_locations\<close> (the \<open>file:\<close> URLs of local archives) are
  what the beginning of the method computes from the index URLs, the find-links, the
  dependency links and the file system; they are parameters here. Calls of \<open>logger.debug\<close>
  are left out. The pages are collected first and their links filtered next: the
  generator and the filter share only the warning flags and \<open>logged_links\<close>, which are only
  ever set or extended and which no decision reads.
\<close>

definition find_pools ::
  "nat \<Rightarrow> 'v env \<Rightarrow> finder \<Rightarrow> req \<Rightarrow> link list \<Rightarrow> string list \<Rightarrow> (pools \<times> finder) option" where
  "find_pools fuel env self r locations file_locations =
     (case FindLinksFinder_found env r self self of
        (found, self1) \<Rightarrow>
          (case get_pages fuel env r locations [] self1 of
             None \<Rightarrow> None
           | Some (pages, self2) \<Rightarrow>
               (case page_versions_loop env r pages self2 of
                  (paged, self3) \<Rightarrow>
                    (case package_versions env
                            (map (\<lambda>u. mk_link env u None None) (dependency_links self3))
                            (lower (name r)) self3 self3 of
                       (dependency, self4) \<Rightarrow>
                         (case package_versions env
                                 (map (\<lambda>u. mk_link env u None None) file_locations)
                                 (lower (name r)) self4 self4 of
                            (files, self5) \<Rightarrow>
                              Some (\<lparr> found_versions = found,
                                      page_versions = paged,
                                      dependency_versions = dependency,
                                      file_versions = files \<rparr>, self5))))))"

text \<open>\<open>if file_versions: file_versions = FoundVersion.sort(file_versions)\<close>, then
  \<open>all_versions\<close>.\<close>

definition all_versions :: "('v::linorder) env \<Rightarrow> req \<Rightarrow> pools \<Rightarrow> error + FoundVersion list" where
  "all_versions env r p =
     (let installed_version = InstalledFinder_found r in
      case (if file_versions p \<noteq> [] then FoundVersion_sort env (file_versions p)
            else Inr (file_versions p)) of
        Inl e \<Rightarrow> Inl e
      | Inr sorted_files \<Rightarrow>
          Inr (installed_version @ sorted_files @ found_versions p
               @ page_versions p @ dependency_versions p))"

text \<open>The loop \<open>for found in all_versions\<close> that fills \<open>applicable_versions\<close>\<close>

fun applicable_loop ::
  "'v env \<Rightarrow> finder \<Rightarrow> req \<Rightarrow> FoundVersion list \<Rightarrow> FoundVersion list \<Rightarrow> FoundVersion list" where
  "applicable_loop env self r [] applicable_versions = applicable_versions"
| "applicable_loop env self r (found # rest) applicable_versions =
     (if \<not> req_contains r (version found)
      then applicable_loop env self r rest applicable_versions
      else if prerelease env found \<and> \<not> (allow_all_prereleases self \<or> prereleases r)
      then (if \<not> currently_installed found
            then applicable_loop env self r rest applicable_versions
            else applicable_loop env self r rest (applicable_versions @ [found]))
      else applicable_loop env self r rest (applicable_versions @ [found]))"

definition failure_warnings :: "finder \<Rightarrow> log_entry list" where
  "failure_warnings self =
     (if need_warn_external self then [External_files_ignored] else [])
     @ (if need_warn_unverified self then [Unverified_files_ignored] else [])"

text \<open>
  The rest of \<open>find_requirement\<close>, from the test of the pools on: the result (an exception,
  or the link returned, \<open>None\<close> for Python's \<open>None\<close>) and the messages logged at warning
  level and above.

  After the final sort \<open>applicable_versions\<close> is the list that \<open>sorted\<close> returned. In the
  branch \<open>if not upgrade and existing_applicable\<close> the condition
  \<open>applicable_versions.currently_installed\<close> reads an attribute that a list does not have,
  which raises \<open>AttributeError\<close> before either message is logged and before
  \<open>return None\<close>.
\<close>

definition select_version ::
  "('v::linorder) env \<Rightarrow> finder \<Rightarrow> req \<Rightarrow> bool \<Rightarrow> pools \<Rightarrow> (error + link option) \<times> log_entry list" where
  "select_version env self r upgrade p =
     (if found_versions p = [] \<and> page_versions p = []
         \<and> dependency_versions p = [] \<and> file_versions p = []
      then (Inl (DistributionNotFound No_distributions_at_all),
            Could_not_find_any_downloads # failure_warnings self)
      else
        (case all_versions env r p of
           Inl e \<Rightarrow> (Inl e, [])
         | Inr all \<Rightarrow>
             (case FoundVersion_sort env (applicable_loop env self r all []) of
                Inl e \<Rightarrow> (Inl e, [])
              | Inr applicable_versions \<Rightarrow>
                  (let existing_applicable = list_ex currently_installed applicable_versions in
                   if \<not> upgrade \<and> existing_applicable then (Inl AttributeError, [])
                   else
                     (case applicable_versions of
                        [] \<Rightarrow> (Inl (DistributionNotFound No_matching_version),
                               Could_not_find_a_version # failure_warnings self)
                      | best # others \<Rightarrow>
                          (case link best of
                             INSTALLED_VERSION \<Rightarrow> (Inl BestVersionAlreadyInstalled, [])
                           | Link selected_version \<Rightarrow>
                               (Inr (Some selected_version),
                                (if verifiable selected_version \<noteq> None
                                    \<and> \<not> the (verifiable selected_version)
                                 then [Potentially_insecure] else [])
                                @ (if deprecated_regex selected_version
                                   then [Deprecated_parsing_method] else []))))))))"

record outcome =
  result :: "error + link option"
  logged :: "log_entry list"
  finder_after :: finder

definition find_requirement ::
  "nat \<Rightarrow> ('v::linorder) env \<Rightarrow> finder \<Rightarrow> req \<Rightarrow> bool \<Rightarrow> link list \<Rightarrow> string list
     \<Rightarrow> outcome option" where
  "find_requirement fuel env self r upgrade locations file_locations =
     (case find_pools fuel env self r locations file_locations of
        None \<Rightarrow> None
      | Some (p, self') \<Rightarrow>
          (case select_version env self' r upgrade p of
             (res, msgs) \<Rightarrow> Some \<lparr> result = res, logged = msgs, finder_after = self' \<rparr>))"

section \<open>Example inputs\<close>

text \<open>
  A small world for concrete runs: an interpreter \<open>3.4\<close> on Linux that supports the tags
  \<open>cp34-none-any\<close> and \<open>py3-none-any\<close>, two wheel file names that parse, four version
  strings in their order, \<open>2.0a1\<close> the only pre-release, and no page that can be fetched.
\<close>

definition example_Wheel :: "string \<Rightarrow> wheel_info option" where
  "example_Wheel f =
     (if f = ''foo-1.0-py3-none-any.whl''
      then Some \<lparr>wheel_name = ''foo'', wheel_version = ''1.0'',
                 file_tags = [(''py3'', ''none'', ''any'')]\<rparr>
      else if f = ''foo-1.0-py2-none-any.whl''
      then Some \<lparr>wheel_name = ''foo'', wheel_version = ''1.0'',
                 file_tags = [(''py2'', ''none'', ''any'')]\<rparr>
      else None)"

definition example_parse_version :: "string \<Rightarrow> nat" where
  "example_parse_version v =
     (if v = ''2.0'' then 4 else if v = ''2.0a1'' then 3
      else if v = ''1.0'' then 2 else if v = ''0.9'' then 1 else 0)"

definition example_mk_link :: "string \<Rightarrow> string option \<Rightarrow> bool option \<Rightarrow> link" where
  "example_mk_link u origin trust =
     \<lparr> url = u, egg_fragment = None,
       splitext = (if u = ''http://h/foo-1.0.tar.gz'' then (''foo-1.0'', ''.tar.gz'') else (u, [])),
       path = (if u = ''http://h/foo-1.0.tar.gz'' then ''/foo-1.0.tar.gz'' else []),
       filename = (if u = ''http://h/foo-1.0.tar.gz'' then ''foo-1.0.tar.gz'' else ''h''),
       comes_from = None, trusted = trust, internal = None, verifiable = None,
       deprecated_regex = False \<rparr>"

definition example_env :: "nat env" where
  "example_env =
     \<lparr> Wheel = example_Wheel,
       supported_tags = [(''cp34'', ''none'', ''any''), (''py3'', ''none'', ''any'')],
       supported_tags_noarch = [(''py3'', ''none'', ''any'')],
       get_platform = ''linux_x86_64'',
       sys_version = ''3.4.0 (default, Apr 11 2014)'',
       parse_version = example_parse_version,
       is_prerelease = (\<lambda>v. v = ''2.0a1''),
       normalize_name = lower,
       netloc = (\<lambda>u. ''h''),
       mk_link = example_mk_link,
       get_page = (\<lambda>l. None) \<rparr>"

definition example_finder :: finder where
  "example_finder =
     \<lparr> find_links = [''http://h/foo-1.0.tar.gz''], index_urls = [], dependency_links = [],
       logged_links = {}, use_wheel = True, allow_external = {}, allow_unverified = {},
       allow_all_external = False, need_warn_external = False, need_warn_unverified = False,
       allow_all_prereleases = False, process_dependency_links = False,
       finder_session = Session \<rparr>"

text \<open>The requirement \<open>foo\<close> without a specifier, version \<open>1.0\<close> installed.\<close>

definition example_req :: req where
  "example_req =
     \<lparr> name = ''foo'', url_name = ''foo'', satisfied_by = Some ''1.0'',
       req_contains = (\<lambda>v. True), prereleases = False \<rparr>"

text \<open>The source archive \<open>http://h/foo-1.0.tar.gz\<close>\<close>

definition example_sdist :: link where
  "example_sdist = example_mk_link ''http://h/foo-1.0.tar.gz'' None None"


text \<open>The same wheel for Python 3, without a fragment:
  \<open>http://h/foo-1.0-py3-none-any.whl\<close>\<close>

definition example_wheel :: link where
  "example_wheel =
     \<lparr> url = ''http://h/foo-1.0-py3-none-any.whl'', egg_fragment = None,
       splitext = (''foo-1.0-py3-none-any'', ''.whl''),
       path = ''/foo-1.0-py3-none-any.whl'', filename = ''foo-1.0-py3-none-any.whl'',
       comes_from = None, trusted = None, internal = None, verifiable = None,
       deprecated_regex = False \<rparr>"

text \<open>A zip archive for macOS 10 with an egg fragment:
  \<open>http://h/foo-1.0-macosx10.zip#egg=foo-1.0\<close>, and the same without the fragment\<close>

definition example_egg_macosx :: link where
  "example_egg_macosx =
     \<lparr> url = ''http://h/foo-1.0-macosx10.zip#egg=foo-1.0'', egg_fragment = Some ''foo-1.0'',
       splitext = (''foo-1.0-macosx10'', ''.zip''),
       path = ''/foo-1.0-macosx10.zip'', filename = ''foo-1.0-macosx10.zip'',
       comes_from = None, trusted = None, internal = None, verifiable = None,
       deprecated_regex = False \<rparr>"

definition example_macosx :: link where
  "example_macosx = example_egg_macosx\<lparr>url := ''http://h/foo-1.0-macosx10.zip'', egg_fragment := None\<rparr>"

text \<open>An archive whose name ends in a Python version: \<open>http://h/foo-1.0-py3.4.tar.gz\<close>\<close>

definition example_py34 :: link where
  "example_py34 =
     \<lparr> url = ''http://h/foo-1.0-py3.4.tar.gz'', egg_fragment = None,
       splitext = (''foo-1.0-py3.4'', ''.tar.gz''),
       path = ''/foo-1.0-py3.4.tar.gz'', filename = ''foo-1.0-py3.4.tar.gz'',
       comes_from = None, trusted = None, internal = None, verifiable = None,
       deprecated_regex = False \<rparr>"

text \<open>The Python 3 wheel with an egg fragment:
  \<open>http://h/foo-1.0-py3-none-any.whl#egg=foo-1.0\<close>\<close>

definition example_egg_wheel3 :: link where
  "example_egg_wheel3 =
     example_wheel\<lparr>url := ''http://h/foo-1.0-py3-none-any.whl#egg=foo-1.0'',
                   egg_fragment := Some ''foo-1.0''\<rparr>"

text \<open>The example finder with wheel support disabled, and a requirement \<open>foo\<close> with nothing
  installed\<close>

definition example_no_wheel_finder :: finder where
  "example_no_wheel_finder = example_finder\<lparr>use_wheel := False\<rparr>"

definition example_new_req :: req where
  "example_new_req = example_req\<lparr>satisfied_by := None\<rparr>"



text \<open>A finder with nothing to search that has skipped an external link before\<close>

definition example_empty_finder :: finder where
  "example_empty_finder = example_finder\<lparr>find_links := [], need_warn_external := True\<rparr>"

text \<open>The finder built with \<open>allow_external=['Bar']\<close> and \<open>allow_unverified=['Foo']\<close>\<close>

definition example_initial :: finder where
  "example_initial =
     example_finder\<lparr>find_links := [], allow_external := {''bar'', ''foo''},
                    allow_unverified := {''foo''}\<rparr>"

text \<open>An externally hosted link: \<open>internal\<close> is false.\<close>

definition example_external :: link where
  "example_external = example_sdist\<lparr>internal := Some False\<rparr>"

section \<open>Finder states over time\<close>

text \<open>
  \<open>finder_reaches env f0 f\<close>: the finder that was \<open>f0\<close> has become \<open>f\<close> through calls of
  the operations that write to it.
\<close>

inductive finder_reaches :: "('v::linorder) env \<Rightarrow> finder \<Rightarrow> finder \<Rightarrow> bool"
  for env :: "('v::linorder) env" and f0 :: finder where
  start: "finder_reaches env f0 f0"
| after_add_dependency_links:
    "finder_reaches env f0 f \<Longrightarrow> finder_reaches env f0 (fst (add_dependency_links f new_links))"
| after_link_package_versions:
    "finder_reaches env f0 f \<Longrightarrow>
       finder_reaches env f0 (snd (link_package_versions env l search_name f f))"
| after_package_versions:
    "finder_reaches env f0 f \<Longrightarrow>
       finder_reaches env f0 (snd (package_versions env ls search_name f f))"
| after_get_pages:
    "finder_reaches env f0 f \<Longrightarrow> get_pages fuel env r locations seen f = Some (pages, f') \<Longrightarrow>
       finder_reaches env f0 f'"
| after_find_requirement:
    "finder_reaches env f0 f \<Longrightarrow>
       find_requirement fuel env f r upgrade locations file_locations = Some out \<Longrightarrow>
       finder_reaches env f0 (finder_after out)"

text \<open>Two finder states allow the same names.\<close>

definition same_allowed :: "finder \<Rightarrow> finder \<Rightarrow> bool" where
  "same_allowed f f' =
     (allow_external f' = allow_external f \<and> allow_unverified f' = allow_unverified f)"

section \<open>The sort\<close>










lemma sort_key_error:
  "FoundVersion_sort_key env x = Inl e \<Longrightarrow> e \<in> {InvalidWheelFilename, UnsupportedWheel, TypeError}"
  by (auto simp: FoundVersion_sort_key_def Let_def
           split: candidate_link.splits if_splits option.splits)

lemma sort_keys_error:
  "sort_keys key xs = Inl e \<Longrightarrow> \<exists>x \<in> set xs. key x = Inl e"
  by (induction xs) (auto split: sum.splits)

lemma FoundVersion_sort_error:
  "FoundVersion_sort env xs = Inl e \<Longrightarrow> e \<in> {InvalidWheelFilename, UnsupportedWheel, TypeError}"
  by (auto simp: FoundVersion_sort_def split: sum.splits dest!: sort_keys_error sort_key_error)

lemma all_versions_error:
  "all_versions env r p = Inl e \<Longrightarrow> e \<in> {InvalidWheelFilename, UnsupportedWheel, TypeError}"
  by (auto simp: all_versions_def Let_def split: sum.splits if_splits dest!: FoundVersion_sort_error)

section \<open>Selection\<close>



lemma select_version_no_downloads:
  "fst (select_version env self r upgrade p) = Inl (DistributionNotFound No_distributions_at_all)
     \<longleftrightarrow> found_versions p = [] \<and> page_versions p = []
          \<and> dependency_versions p = [] \<and> file_versions p = []"
proof (cases "found_versions p = [] \<and> page_versions p = []
          \<and> dependency_versions p = [] \<and> file_versions p = []")
  case True
  then show ?thesis by (simp add: select_version_def)
next
  case False
  have "fst (select_version env self r upgrade p) \<noteq> Inl (DistributionNotFound No_distributions_at_all)"
    using False
    by (auto simp: select_version_def Let_def
         split: sum.splits list.splits candidate_link.splits
         dest!: all_versions_error FoundVersion_sort_error)
  with False show ?thesis by simp
qed

lemma select_version_no_downloads_log:
  "found_versions p = [] \<and> page_versions p = []
          \<and> dependency_versions p = [] \<and> file_versions p = [] \<Longrightarrow>
   snd (select_version env self r upgrade p) = 
     Could_not_find_any_downloads
       # (if need_warn_external self then [External_files_ignored] else [])
       @ (if need_warn_unverified self then [Unverified_files_ignored] else [])"
  by (simp add: select_version_def failure_warnings_def)

text \<open>No run of the selection ends in \<open>return None\<close>.\<close>

lemma select_version_never_None:
  "fst (select_version env self r upgrade p) \<noteq> Inr None"
  by (auto simp: select_version_def Let_def
         split: sum.splits list.splits candidate_link.splits)

section \<open>The link filter\<close>

lemma link_egg_info_macosx:
  assumes "\<not> has_egg_fragment l" "substring_in ''macosx10'' (path l)" "ext l = ''.zip''"
  shows "fst (link_egg_info env l n config state) = None"
proof -
  obtain stem where sp: "splitext l = (stem, ''.zip'')"
    using assms(3) by (cases "splitext l") (simp add: ext_def)
  show ?thesis
  proof (cases "endswith stem ''.tar''")
    case True
    have "''.tar.zip'' \<notin> set (known_extensions (use_wheel config))"
      by (simp add: known_extensions_def wheel_ext_def Let_def)
    then show ?thesis using assms(1) sp True
      by (simp add: link_egg_info_def)
  next
    case False
    then show ?thesis using assms(1,2) sp
      by (simp add: link_egg_info_def)
  qed
qed





lemma py_tag_cases:
  "py_tag t \<Longrightarrow>
     (\<exists>c. t = [c] \<and> c \<in> set ''123'')
   \<or> (\<exists>c d. t = [c, d] \<and> c \<in> set ''123'' \<and> (d = CHR ''.'' \<or> is_digit d))
   \<or> (\<exists>c d. t = [c, CHR ''.'', d] \<and> c \<in> set ''123'' \<and> is_digit d)"
  unfolding py_tag_def by (auto split: list.splits)

lemma py_version_at_append:
  "py_tag t \<Longrightarrow> py_version_at (base @ ''-py'' @ t) (length t) = Some (length base, t)"
  by (simp add: py_version_at_def)

lemma py_version_at_Some:
  assumes "py_version_at body k = Some (i, t)"
  shows "\<exists>pre. body = pre @ ''-py'' @ t \<and> length pre = i \<and> length t = k \<and> py_tag t"
proof -
  let ?n = "length body"
  have c: "k + 3 \<le> ?n \<and> take 3 (drop (?n - (k + 3)) body) = ''-py'' \<and> py_tag (drop (?n - k) body)"
    using assms unfolding py_version_at_def Let_def by (meson option.distinct(1))
  then have r: "Some (?n - (k + 3), drop (?n - k) body) = Some (i, t)"
    using assms unfolding py_version_at_def Let_def by simp
  then have i: "i = ?n - (k + 3)" and t: "t = drop (?n - k) body" by simp_all
  from c have k: "k + 3 \<le> ?n" and tk: "take 3 (drop i body) = ''-py''" and pt: "py_tag t"
    using i t by simp_all
  have "i + 3 = ?n - k" using i k by linarith
  then have d3: "drop 3 (drop i body) = t" using t by (simp add: add.commute)
  have "drop i body = take 3 (drop i body) @ drop 3 (drop i body)"
    by (rule append_take_drop_id [symmetric])
  then have "drop i body = ''-py'' @ t" by (simp only: tk d3)
  then have "body = take i body @ ''-py'' @ t"
    by (metis append_take_drop_id)
  moreover have "length t = k" using t k by simp
  moreover have "length (take i body) = i" using i k by simp
  ultimately show ?thesis using pt by blast
qed

lemma py_version_re_search_Some:
  assumes "py_version_re_search s = Some (i, t)"
  shows "py_tag t \<and> (s = take i s @ ''-py'' @ t \<or> s = take i s @ ''-py'' @ t @ [CHR 0x0A])"
proof -
  define body where "body = (if s \<noteq> [] \<and> last s = CHR 0x0A then butlast s else s)"
  from assms obtain k where "py_version_at body k = Some (i, t)"
    unfolding py_version_re_search_def body_def [symmetric] Let_def
    by (auto split: option.splits)
  from py_version_at_Some [OF this]
  obtain pre where b: "body = pre @ ''-py'' @ t" and l: "length pre = i" and pt: "py_tag t"
    by blast
  have s: "s = body \<or> s = body @ [CHR 0x0A]"
    unfolding body_def by (auto dest: append_butlast_last_id [symmetric])
  from b l have "take i body = pre" by simp
  moreover have "take i s = take i body" using s b l by auto
  ultimately have "take i s = pre" by simp
  with s b pt show ?thesis by auto
qed

lemma py_tag_length: "py_tag t \<Longrightarrow> 1 \<le> length t \<and> length t \<le> 3"
  by (drule py_tag_cases) auto

lemma py_tag_not_y: "\<not> py_tag (CHR ''y'' # t)"
  by (auto simp: py_tag_def split: list.splits)

lemma py_tag_not_p: "\<not> py_tag (CHR ''p'' # t)"
  by (auto simp: py_tag_def split: list.splits)

lemma py_version_at_longer:
  assumes "py_tag t" "length t < k"
  shows "py_version_at (base @ ''-py'' @ t) k = None"
proof (rule ccontr)
  assume "py_version_at (base @ ''-py'' @ t) k \<noteq> None"
  then obtain i u where s: "py_version_at (base @ ''-py'' @ t) k = Some (i, u)" by auto
  from py_version_at_Some [OF s]
  obtain pre where eq: "base @ ''-py'' @ t = pre @ ''-py'' @ u" and lu: "length u = k"
    and pu: "py_tag u"
    by auto
  from eq have "length (base @ ''-py'' @ t) = length (pre @ ''-py'' @ u)" by (rule arg_cong)
  then have len: "length base + length t = length pre + length u" by simp
  have "drop (length pre + 3) (pre @ ''-py'' @ u) = u" by simp
  then have u: "u = drop (length pre + 3) (base @ ''-py'' @ t)" by (simp only: eq)
  have bounds: "1 \<le> length t" "length u \<le> 3"
    using py_tag_length [OF assms(1)] py_tag_length [OF pu] by auto
  then consider "length pre + 1 = length base" | "length pre + 2 = length base"
    using len lu assms(2) by linarith
  then show False
  proof cases
    case 1
    then have "length pre + 3 = length base + 2" by simp
    with u have "u = CHR ''y'' # t" by simp
    with pu py_tag_not_y show False by simp
  next
    case 2
    then have "length pre + 3 = length base + 1" by simp
    with u have "u = CHR ''p'' # CHR ''y'' # t" by simp
    with pu py_tag_not_p show False by simp
  qed
qed

lemma no_newline: "py_tag t \<Longrightarrow> last (base @ ''-py'' @ t) \<noteq> CHR 0x0A"
  by (drule py_tag_cases) (auto simp: is_digit_def ord_def)

lemma py_version_re_search_suffix:
  assumes "py_tag t"
  shows "py_version_re_search (base @ ''-py'' @ t) = Some (length base, t)"
proof -
  have len: "length t = 1 \<or> length t = 2 \<or> length t = 3"
    using py_tag_cases [OF assms] by auto
  have nn: "last (base @ ''-py'' @ t) \<noteq> CHR 0x0A" by (rule no_newline [OF assms])
  from len show ?thesis
  proof (elim disjE)
    assume l: "length t = 1"
    then show ?thesis
      using py_version_at_append [OF assms, of base]
        py_version_at_longer [OF assms, of 2 base] py_version_at_longer [OF assms, of 3 base] nn
      by (simp add: py_version_re_search_def)
  next
    assume l: "length t = 2"
    then show ?thesis
      using py_version_at_append [OF assms, of base]
        py_version_at_longer [OF assms, of 3 base] nn
      by (simp add: py_version_re_search_def)
  next
    assume l: "length t = 3"
    then show ?thesis
      using py_version_at_append [OF assms, of base] nn
      by (simp add: py_version_re_search_def)
  qed
qed

section \<open>The allowed names never change\<close>

lemma same_allowed_refl: "same_allowed f f"
  by (simp add: same_allowed_def)

lemma same_allowed_trans: "same_allowed f g \<Longrightarrow> same_allowed g h \<Longrightarrow> same_allowed f h"
  by (simp add: same_allowed_def)

lemma log_skipped_allowed: "same_allowed state (log_skipped l state)"
  by (simp add: same_allowed_def log_skipped_def)

lemma link_egg_info_allowed:
  "same_allowed state (snd (link_egg_info env l n config state))"
  by (simp add: link_egg_info_def Let_def same_allowed_refl log_skipped_allowed
           split: prod.splits option.splits)

lemma link_version_allowed:
  "same_allowed state (snd (link_version env l n config state))"
  using link_egg_info_allowed [of state env l n config]
  by (auto simp: link_version_def split: prod.splits option.splits)

lemma link_package_versions_allowed:
  "same_allowed state (snd (link_package_versions env l n config state))"
  using link_version_allowed [of state env l n config]
  by (auto simp: link_package_versions_def same_allowed_def split: prod.splits option.splits)

lemma package_versions_loop_allowed:
  "same_allowed state (snd (package_versions_loop env n config ls state))"
proof (induction ls arbitrary: state)
  case Nil
  show ?case by (simp add: same_allowed_refl)
next
  case (Cons l ls)
  obtain vs st where a: "link_package_versions env l n config state = (vs, st)"
    by (cases "link_package_versions env l n config state")
  have "same_allowed state st"
    using link_package_versions_allowed [of state env l n config] a by simp
  moreover have "same_allowed st (snd (package_versions_loop env n config ls st))"
    by (rule Cons.IH)
  ultimately show ?case using a
    by (auto simp: split: prod.splits intro: same_allowed_trans)
qed

lemma package_versions_allowed:
  "same_allowed state (snd (package_versions env ls n config state))"
  by (simp add: package_versions_def package_versions_loop_allowed)

lemma rel_links_loop_allowed:
  "same_allowed self (snd (rel_links_loop env r ls self))"
proof (induction ls arbitrary: self)
  case Nil
  show ?case by (simp add: same_allowed_refl)
next
  case (Cons l ls)
  have a: "same_allowed self (self\<lparr>need_warn_external := True\<rparr>)"
    and b: "same_allowed self (self\<lparr>need_warn_unverified := True\<rparr>)"
    by (simp_all add: same_allowed_def)
  show ?case
    using Cons.IH [of self] same_allowed_trans [OF a Cons.IH [of "self\<lparr>need_warn_external := True\<rparr>"]]
      same_allowed_trans [OF b Cons.IH [of "self\<lparr>need_warn_unverified := True\<rparr>"]]
    by (auto simp: Let_def split: prod.splits)
qed

lemma get_pages_allowed:
  "get_pages fuel env r locations seen self = Some (pages, self') \<Longrightarrow> same_allowed self self'"
proof (induction fuel env r locations seen self arbitrary: pages self' rule: get_pages.induct)
  case (1 fuel env r seen self)
  then show ?case by (simp add: same_allowed_refl)
next
  case (2 env r location all_locations seen self)
  then show ?case by simp
next
  case (3 fuel env r location all_locations seen self)
  show ?case
  proof (cases "url location \<in> set seen")
    case True
    with 3 show ?thesis by simp
  next
    case False
    show ?thesis
    proof (cases "get_page env location")
      case None
      with 3 False show ?thesis by simp
    next
      case (Some page)
      obtain followed s1 where rl: "rel_links_loop env r (rel_links page) self = (followed, s1)"
        by (cases "rel_links_loop env r (rel_links page) self")
      have a: "same_allowed self s1"
        using rel_links_loop_allowed [of self env r "rel_links page"] rl by simp
      from "3.prems" False Some rl obtain ps where
        g: "get_pages fuel env r (all_locations @ followed) (url location # seen) s1 = Some (ps, self')"
        by (auto split: option.splits)
      have "same_allowed s1 self'"
        using "3.IH"(3) [OF False Some rl [symmetric] g] .
      with a show ?thesis by (rule same_allowed_trans)
    qed
  qed
qed

lemma page_versions_loop_allowed:
  "same_allowed self (snd (page_versions_loop env r pages self))"
proof (induction pages arbitrary: self)
  case Nil
  show ?case by (simp add: same_allowed_refl)
next
  case (Cons page pages)
  obtain vs st where a: "package_versions env (links page) (lower (name r)) self self = (vs, st)"
    by (cases "package_versions env (links page) (lower (name r)) self self")
  have "same_allowed self st"
    using package_versions_allowed [of self env "links page" "lower (name r)" self] a by simp
  moreover have "same_allowed st (snd (page_versions_loop env r pages st))"
    by (rule Cons.IH)
  ultimately show ?case using a
    by (auto split: prod.splits intro: same_allowed_trans)
qed

lemma find_pools_allowed:
  assumes "find_pools fuel env self r locations file_locations = Some (p, self')"
  shows "same_allowed self self'"
proof -
  obtain found s1 where 1: "FindLinksFinder_found env r self self = (found, s1)"
    by (cases "FindLinksFinder_found env r self self")
  from assms 1 obtain pages s2 where 2: "get_pages fuel env r locations [] s1 = Some (pages, s2)"
    by (auto simp: find_pools_def split: option.splits)
  obtain paged s3 where 3: "page_versions_loop env r pages s2 = (paged, s3)"
    by (cases "page_versions_loop env r pages s2")
  obtain dep s4 where 4: "package_versions env (map (\<lambda>u. mk_link env u None None) (dependency_links s3))
                            (lower (name r)) s3 s3 = (dep, s4)"
    by (cases "package_versions env (map (\<lambda>u. mk_link env u None None) (dependency_links s3))
                            (lower (name r)) s3 s3")
  obtain files s5 where 5: "package_versions env (map (\<lambda>u. mk_link env u None None) file_locations)
                                 (lower (name r)) s4 s4 = (files, s5)"
    by (cases "package_versions env (map (\<lambda>u. mk_link env u None None) file_locations)
                                 (lower (name r)) s4 s4")
  from assms 1 2 3 4 5 have e: "self' = s5" by (simp add: find_pools_def)
  have "same_allowed self s1"
    using package_versions_allowed [of self env _ "lower (name r)" self] 1
    unfolding FindLinksFinder_found_def by (metis snd_conv)
  moreover have "same_allowed s1 s2" using get_pages_allowed [OF 2] .
  moreover have "same_allowed s2 s3" using page_versions_loop_allowed [of s2 env r pages] 3 by simp
  moreover have "same_allowed s3 s4" using package_versions_allowed [of s3 env _ "lower (name r)" s3] 4 by (metis snd_conv)
  moreover have "same_allowed s4 s5" using package_versions_allowed [of s4 env _ "lower (name r)" s4] 5 by (metis snd_conv)
  ultimately show ?thesis unfolding e by (blast intro: same_allowed_trans)
qed

lemma find_requirement_allowed:
  assumes "find_requirement fuel env self r upgrade locations file_locations = Some out"
  shows "same_allowed self (finder_after out)"
proof -
  from assms obtain p self' where fp: "find_pools fuel env self r locations file_locations = Some (p, self')"
    by (auto simp: find_requirement_def split: option.splits)
  with assms have "finder_after out = self'"
    by (auto simp: find_requirement_def split: prod.splits)
  with find_pools_allowed [OF fp] show ?thesis by simp
qed

lemma add_dependency_links_allowed: "same_allowed self (fst (add_dependency_links self ls))"
  by (simp add: add_dependency_links_def same_allowed_def)

lemma finder_reaches_allowed: "finder_reaches env f0 f \<Longrightarrow> same_allowed f0 f"
proof (induction rule: finder_reaches.induct)
  case start
  show ?case by (rule same_allowed_refl)
next
  case (after_add_dependency_links f new_links)
  then show ?case by (blast intro: same_allowed_trans add_dependency_links_allowed)
next
  case (after_link_package_versions f l search_name)
  then show ?case by (blast intro: same_allowed_trans link_package_versions_allowed)
next
  case (after_package_versions f ls search_name)
  then show ?case by (blast intro: same_allowed_trans package_versions_allowed)
next
  case (after_get_pages f fuel r locations seen pages f')
  then show ?case by (blast intro: same_allowed_trans get_pages_allowed)
next
  case (after_find_requirement f fuel r upgrade locations file_locations out)
  then show ?case by (blast intro: same_allowed_trans find_requirement_allowed)
qed

lemma init_allowed:
  "PackageFinder_init env fl iu uw ae au aae aap pdl sess = Inr f0 \<Longrightarrow>
     allow_unverified f0 = set (map (normalize_name env) au)
     \<and> allow_external f0 = set (map (normalize_name env) ae) \<union> set (map (normalize_name env) au)"
  by (auto simp: PackageFinder_init_def Let_def split: option.splits)

section \<open>The claims\<close>

text \<open>
  Claim C1: for a requirement whose applicable versions hold the installed candidate,
  \<open>find_requirement\<close> with \<open>upgrade=False\<close> returns \<open>None\<close> and raises nothing.
  The code does not: with \<open>foo\<close> 1.0 installed and \<open>foo-1.0.tar.gz\<close> among the find-links,
  the call ends in \<open>AttributeError\<close>, raised by \<open>applicable_versions.currently_installed\<close>
  on the sorted list.
\<close>

theorem find_requirement_installed_no_upgrade_raises:
  "map_option result
     (find_requirement 1 example_env example_finder example_req False
        [example_mk_link ''http://h/foo-1.0.tar.gz'' None (Some True)] [])
   = Some (Inl AttributeError)"
  by code_simp

text \<open>
  Claim C2: \<open>FoundVersion.sort\<close> orders by the parsed version and, only if wheel support is
  enabled, by the priority of installed candidates, wheels and source archives; candidates with
  equal keys keep their input order.
  The sort never looks at the wheel setting. A source archive and the installed candidate of
  the same version, in this order, come back with the installed candidate first, although
  by version alone they are equal and would keep their order. And a finder with wheel support
  disabled that found the source archive first and a wheel (through a link with an egg
  fragment) second selects the wheel.
\<close>

theorem FoundVersion_sort_priority_without_wheels:
  "parsed_version example_env \<lparr>version = ''1.0'', link = Link example_sdist\<rparr>
     = parsed_version example_env \<lparr>version = ''1.0'', link = INSTALLED_VERSION\<rparr>
   \<and> FoundVersion_sort example_env
         [\<lparr>version = ''1.0'', link = Link example_sdist\<rparr>,
          \<lparr>version = ''1.0'', link = INSTALLED_VERSION\<rparr>]
       = Inr [\<lparr>version = ''1.0'', link = INSTALLED_VERSION\<rparr>,
              \<lparr>version = ''1.0'', link = Link example_sdist\<rparr>]
   \<and> fst (package_versions example_env [example_sdist, example_egg_wheel3] ''foo''
            example_no_wheel_finder example_no_wheel_finder)
       = [\<lparr>version = ''1.0'', link = Link example_sdist\<rparr>,
          \<lparr>version = ''1.0'', link = Link example_egg_wheel3\<rparr>]
   \<and> fst (select_version example_env example_no_wheel_finder example_new_req True
            \<lparr>found_versions = [\<lparr>version = ''1.0'', link = Link example_sdist\<rparr>,
                                \<lparr>version = ''1.0'', link = Link example_egg_wheel3\<rparr>],
             page_versions = [], dependency_versions = [], file_versions = []\<rparr>)
       = Inr (Some example_egg_wheel3)"
  by code_simp





text \<open>
  Claim C5: \<open>find_requirement\<close> raises \<open>DistributionNotFound\<close> for want of any download
  exactly when the find-links, page, dependency and file pools are all empty, whether or not a
  version is installed; before raising it logs the warning about external files iff
  \<open>need_warn_external\<close> is set, and the warning about unverifiable files iff
  \<open>need_warn_unverified\<close> is set.
\<close>

theorem find_requirement_no_downloads:
  assumes "find_pools fuel env self r locations file_locations = Some (p, self')"
  shows "\<exists>out. find_requirement fuel env self r upgrade locations file_locations = Some out
     \<and> finder_after out = self'
     \<and> (result out = Inl (DistributionNotFound No_distributions_at_all)
          \<longleftrightarrow> found_versions p = [] \<and> page_versions p = []
               \<and> dependency_versions p = [] \<and> file_versions p = [])
     \<and> (result out = Inl (DistributionNotFound No_distributions_at_all) \<longrightarrow>
          logged out =
            Could_not_find_any_downloads
            # (if need_warn_external self' then [External_files_ignored] else [])
            @ (if need_warn_unverified self' then [Unverified_files_ignored] else []))"
proof -
  obtain res msgs where sv: "select_version env self' r upgrade p = (res, msgs)"
    by (cases "select_version env self' r upgrade p")
  have fr: "find_requirement fuel env self r upgrade locations file_locations
              = Some \<lparr> result = res, logged = msgs, finder_after = self' \<rparr>"
    using assms sv by (simp add: find_requirement_def)
  have a: "res = Inl (DistributionNotFound No_distributions_at_all)
          \<longleftrightarrow> found_versions p = [] \<and> page_versions p = []
               \<and> dependency_versions p = [] \<and> file_versions p = []"
    using select_version_no_downloads [of env self' r upgrade p] sv by simp
  have b: "res = Inl (DistributionNotFound No_distributions_at_all) \<longrightarrow>
          msgs = Could_not_find_any_downloads
            # (if need_warn_external self' then [External_files_ignored] else [])
            @ (if need_warn_unverified self' then [Unverified_files_ignored] else [])"
    using select_version_no_downloads_log [of p env self' r upgrade] a sv by auto
  show ?thesis using fr a b by simp
qed

theorem find_requirement_no_downloads_witness:
  "find_pools 0 example_env example_empty_finder example_req [] []
     = Some (\<lparr>found_versions = [], page_versions = [], dependency_versions = [],
               file_versions = []\<rparr>, example_empty_finder)
   \<and> map_option (\<lambda>out. (result out, logged out))
         (find_requirement 0 example_env example_empty_finder example_req False [] [])
       = Some (Inl (DistributionNotFound No_distributions_at_all),
               [Could_not_find_any_downloads, External_files_ignored])"
proof -
  have h: "find_pools 0 example_env example_empty_finder example_req [] []
     = Some (\<lparr>found_versions = [], page_versions = [], dependency_versions = [],
               file_versions = []\<rparr>, example_empty_finder)"
    by (simp add: find_pools_def FindLinksFinder_found_def package_versions_def sort_links_def
          example_empty_finder_def example_finder_def)
  from find_requirement_no_downloads [OF h, of False]
  obtain out where
    "find_requirement 0 example_env example_empty_finder example_req False [] [] = Some out"
    and "result out = Inl (DistributionNotFound No_distributions_at_all)"
    and "logged out =
            Could_not_find_any_downloads
            # (if need_warn_external example_empty_finder then [External_files_ignored] else [])
            @ (if need_warn_unverified example_empty_finder then [Unverified_files_ignored]
               else [])"
    by auto
  then show ?thesis using h
    by (simp add: example_empty_finder_def example_finder_def)
qed




text \<open>
  Claim C7, as stated: every link whose path contains \<open>macosx10\<close> and whose extension is
  \<open>.zip\<close> is skipped, regardless of other settings. The test sits in the branch for links
  without an egg fragment; \<open>foo-1.0-macosx10.zip#egg=foo-1.0\<close> yields a candidate.
\<close>

theorem egg_fragment_macosx_zip_not_skipped:
  "substring_in ''macosx10'' (path example_egg_macosx)
   \<and> ext example_egg_macosx = ''.zip''
   \<and> fst (link_package_versions example_env example_egg_macosx ''foo''
            example_finder example_finder)
       = [\<lparr>version = ''1.0'', link = Link example_egg_macosx\<rparr>]"
  by code_simp

text \<open>
  Claim C7, amended: every link without an egg fragment whose path contains \<open>macosx10\<close> and
  whose extension is \<open>.zip\<close> is skipped, whatever the search name, the configuration and the
  state.
\<close>

theorem macosx_zip_skipped:
  assumes "\<not> has_egg_fragment l" "substring_in ''macosx10'' (path l)" "ext l = ''.zip''"
  shows "fst (link_package_versions env l n config state) = []"
proof -
  obtain st where "link_egg_info env l n config state = (None, st)"
    using link_egg_info_macosx [OF assms, of env n config state]
    by (cases "link_egg_info env l n config state") simp
  then show ?thesis
    by (simp add: link_package_versions_def link_version_def)
qed

theorem macosx_zip_skipped_witness:
  "\<not> has_egg_fragment example_macosx
   \<and> substring_in ''macosx10'' (path example_macosx)
   \<and> ext example_macosx = ''.zip''
   \<and> fst (link_package_versions example_env example_macosx ''foo''
            example_finder example_finder) = []"
proof -
  have h1: "\<not> has_egg_fragment example_macosx" by code_simp
  have h2: "substring_in ''macosx10'' (path example_macosx)" by code_simp
  have h3: "ext example_macosx = ''.zip''" by code_simp
  from macosx_zip_skipped [OF h1 h2 h3] h1 h2 h3 show ?thesis by blast
qed

text \<open>
  Claim C8: when the version computed for a link ends in \<open>-py\<close> and a tag that the pattern
  \<open>[123]\.?[0-9]?\<close> matches, and the link has passed the hosting checks, the suffix is
  stripped from the version, and the link is skipped iff the tag differs from the first three
  characters of \<open>sys.version\<close>.
\<close>

theorem py_version_suffix_check:
  assumes "link_version env l n config state = (Some (base @ ''-py'' @ tag), state')"
    and "py_tag tag"
    and "\<not> externally_hosted env l n config"
    and "\<not> insecure_unverifiable env l n config"
  shows "link_package_versions env l n config state =
           (if tag \<noteq> take 3 (sys_version env) then []
            else [\<lparr>version = base, link = Link l\<rparr>], state')"
  using assms py_version_re_search_suffix [OF assms(2), of base]
  by (simp add: link_package_versions_def)

theorem py_version_suffix_check_witness:
  "link_version example_env example_py34 ''foo'' example_finder example_finder
     = (Some (''1.0'' @ ''-py'' @ ''3.4''), example_finder)
   \<and> py_tag ''3.4''
   \<and> \<not> externally_hosted example_env example_py34 ''foo'' example_finder
   \<and> \<not> insecure_unverifiable example_env example_py34 ''foo'' example_finder
   \<and> link_package_versions example_env example_py34 ''foo'' example_finder example_finder
       = ([\<lparr>version = ''1.0'', link = Link example_py34\<rparr>], example_finder)"
proof -
  have h1: "link_version example_env example_py34 ''foo'' example_finder example_finder
     = (Some (''1.0'' @ ''-py'' @ ''3.4''), example_finder)"
    by (simp add: link_version_def link_egg_info_def has_egg_fragment_def example_py34_def
          example_finder_def endswith_def known_extensions_def wheel_ext_def
          egg_info_matches_def egg_info_re_match_def egg_name_char_def egg_version_char_def
          is_lower_def is_upper_def is_digit_def ord_def lower_def lower_char_def
          replace_char_def startswith_def)
  have h2: "py_tag ''3.4''" by code_simp
  have h3: "\<not> externally_hosted example_env example_py34 ''foo'' example_finder"
    by (simp add: externally_hosted_def example_py34_def)
  have h4: "\<not> insecure_unverifiable example_env example_py34 ''foo'' example_finder"
    by (simp add: insecure_unverifiable_def example_py34_def)
  have "take 3 (sys_version example_env) = ''3.4''" by (simp add: example_env_def)
  with py_version_suffix_check [OF h1 h2 h3 h4] h1 h2 h3 h4 show ?thesis by simp
qed

text \<open>
  Claim C9: \<open>clean_link\<close> is idempotent on every URL string. The format \<open>%2x\<close> pads with a
  space, not a zero, so a tab becomes \<open>% 9\<close>, and a second pass encodes that space:
  cleaning the result again gives a different string.
\<close>

theorem clean_link_not_idempotent_on_tab:
  "clean_link [CHR 0x09] = ''% 9''
   \<and> clean_link (clean_link [CHR 0x09]) = ''%%209''"
  by code_simp

text \<open>
  Claim C10: once a finder is constructed, every name in \<open>allow_unverified\<close> is in
  \<open>allow_external\<close>; no operation on the finder changes either set afterwards; so the
  external-hosting check never stops a link for a name that is allowed unverified.
\<close>

theorem allow_unverified_subset_allow_external:
  assumes "PackageFinder_init env fl iu uw ae au aae aap pdl sess = Inr f0"
    and "finder_reaches env f0 f"
  shows "allow_unverified f \<subseteq> allow_external f
         \<and> allow_unverified f = allow_unverified f0
         \<and> allow_external f = allow_external f0
         \<and> (\<forall>l search_name. lower (normalize_name env search_name) \<in> allow_unverified f
               \<longrightarrow> \<not> externally_hosted env l search_name f)"
proof -
  have s: "same_allowed f0 f" using assms(2) by (rule finder_reaches_allowed)
  have i: "allow_unverified f0 \<subseteq> allow_external f0"
    using init_allowed [OF assms(1)] by auto
  have sub: "allow_unverified f \<subseteq> allow_external f" using s i by (simp add: same_allowed_def)
  then have "\<forall>l search_name. lower (normalize_name env search_name) \<in> allow_unverified f
               \<longrightarrow> \<not> externally_hosted env l search_name f"
    by (auto simp: externally_hosted_def)
  with sub s show ?thesis by (simp add: same_allowed_def)
qed

theorem allow_unverified_subset_allow_external_witness:
  "PackageFinder_init example_env [] [] True [''Bar''] [''Foo''] False False False (Some Session)
     = Inr example_initial
   \<and> finder_reaches example_env example_initial
        (snd (link_package_versions example_env example_external ''foo''
                example_initial example_initial))
   \<and> allow_unverified (snd (link_package_versions example_env example_external ''foo''
                example_initial example_initial)) = {''foo''}
   \<and> \<not> externally_hosted example_env example_external ''Foo''
          (snd (link_package_versions example_env example_external ''foo''
                  example_initial example_initial))"
proof -
  let ?f = "snd (link_package_versions example_env example_external ''foo''
                   example_initial example_initial)"
  have h1: "PackageFinder_init example_env [] [] True [''Bar''] [''Foo''] False False False
              (Some Session) = Inr example_initial"
  proof -
    have b: "normalize_name example_env ''Bar'' = ''bar''" by code_simp
    have f: "normalize_name example_env ''Foo'' = ''foo''" by code_simp
    show ?thesis
      by (auto simp: PackageFinder_init_def example_initial_def example_finder_def b f)
  qed
  have h2: "finder_reaches example_env example_initial ?f"
    by (rule finder_reaches.after_link_package_versions) (rule finder_reaches.start)
  have n: "lower (normalize_name example_env ''Foo'') = ''foo''" by code_simp
  have i: "allow_unverified example_initial = {''foo''}" by (simp add: example_initial_def)
  from allow_unverified_subset_allow_external [OF h1 h2] i n
  have "allow_unverified ?f = {''foo''}"
    and "\<not> externally_hosted example_env example_external ''Foo'' ?f"
    by auto
  with h1 h2 show ?thesis by simp
qed

end
